theory Spec2Isabelle
  imports Main "HOL-Library.List_Lexorder"
begin

section \<open>Python string primitives used by \<open>homechef/db.py\<close>\<close>

text \<open>
  A Python \<open>str\<close> is a sequence of code points. The alphabet of the model is the
  code points U+0000 to U+00FF together with U+03D2 (GREEK UPSILON WITH HOOK SYMBOL),
  one of the capital letters of Unicode that have no small letter. The character
  classes below are the ones Python 3 uses on this alphabet; all other code points are
  outside the model.
\<close>

datatype codepoint = Latin char | Upsilon_Hook

type_synonym pystr = "codepoint list"

text \<open>A string literal of the range U+0000 to U+00FF as a Python string.\<close>

abbreviation str :: "string \<Rightarrow> pystr" where
  "str s \<equiv> map Latin s"

text \<open>The number of a code point; SQLite's \<open>BINARY\<close> collation orders text by it.\<close>

definition code_point :: "codepoint \<Rightarrow> nat" where
  "code_point c = (case c of Latin b \<Rightarrow> of_char b | Upsilon_Hook \<Rightarrow> 978)"

text \<open>\<open>str.isspace\<close> on one character: the separators of \<open>split()\<close> and \<open>strip()\<close>.\<close>

definition isspace :: "codepoint \<Rightarrow> bool" where
  "isspace c =
     (case c of
        Latin b \<Rightarrow> b \<in> set [CHR 0x09, CHR 0x0A, CHR 0x0B, CHR 0x0C, CHR 0x0D, CHR 0x1C,
                           CHR 0x1D, CHR 0x1E, CHR 0x1F, CHR 0x20, CHR 0x85, CHR 0xA0]
      | Upsilon_Hook \<Rightarrow> False)"

text \<open>
  \<open>str.isdigit\<close> on one character: the ASCII digits (48 to 57) and the superscripts
  2, 3 and 1 (178, 179, 185).
\<close>

definition isdigit_char :: "codepoint \<Rightarrow> bool" where
  "isdigit_char c =
     (case c of
        Latin b \<Rightarrow>
          (let n = (of_char b :: nat)
           in (48 \<le> n \<and> n \<le> 57) \<or> n = 178 \<or> n = 179 \<or> n = 185)
      | Upsilon_Hook \<Rightarrow> False)"

text \<open>\<open>tok.isdigit()\<close>: at least one character, and every character a digit.\<close>

definition isdigit :: "pystr \<Rightarrow> bool" where
  "isdigit tok = (tok \<noteq> [] \<and> list_all isdigit_char tok)"

text \<open>
  \<open>str.isupper\<close> on one character: A to Z, the capital letters of Latin-1, and U+03D2.
\<close>

definition isupper_char :: "codepoint \<Rightarrow> bool" where
  "isupper_char c =
     (case c of
        Latin b \<Rightarrow>
          (let n = (of_char b :: nat)
           in (65 \<le> n \<and> n \<le> 90) \<or> (192 \<le> n \<and> n \<le> 214) \<or> (216 \<le> n \<and> n \<le> 222))
      | Upsilon_Hook \<Rightarrow> True)"

text \<open>
  \<open>str.lower\<close>: a capital letter of the range U+0000 to U+00FF has its small letter 32
  places up; U+03D2 has no small letter and stays; on this alphabet \<open>lower()\<close> works
  character by character.
\<close>

definition lower_char :: "codepoint \<Rightarrow> codepoint" where
  "lower_char c =
     (case c of
        Latin b \<Rightarrow> if isupper_char c then Latin (char_of ((of_char b :: nat) + 32)) else c
      | Upsilon_Hook \<Rightarrow> Upsilon_Hook)"

definition lower :: "pystr \<Rightarrow> pystr" where
  "lower s = map lower_char s"

text \<open>\<open>str.strip()\<close> with no argument: drop the white space at both ends.\<close>

definition strip :: "pystr \<Rightarrow> pystr" where
  "strip s = rev (dropWhile isspace (rev (dropWhile isspace s)))"

text \<open>\<open>s.replace(old, new)\<close> where \<open>old\<close> and \<open>new\<close> are single characters.\<close>

primrec replace :: "pystr \<Rightarrow> codepoint \<Rightarrow> codepoint \<Rightarrow> pystr" where
  "replace [] old new = []"
| "replace (c # cs) old new = (if c = old then new else c) # replace cs old new"

text \<open>
  \<open>str.split()\<close> with no argument: the maximal runs of characters that are not white
  space. The first argument is the token being read.
\<close>

fun split_from :: "pystr \<Rightarrow> pystr \<Rightarrow> pystr list" where
  "split_from cur [] = (if cur = [] then [] else [cur])"
| "split_from cur (c # cs) =
     (if isspace c
      then (if cur = [] then split_from [] cs else cur # split_from [] cs)
      else split_from (cur @ [c]) cs)"

definition split :: "pystr \<Rightarrow> pystr list" where
  "split s = split_from [] s"

text \<open>\<open>sep.join(toks)\<close>.\<close>

fun join :: "pystr \<Rightarrow> pystr list \<Rightarrow> pystr" where
  "join sep [] = []"
| "join sep [t] = t"
| "join sep (t # u # ts) = t @ sep @ join sep (u # ts)"

text \<open>
  \<open>str.splitlines()\<close>: a line ends at LF, CR, CR LF, VT, FF, FS, GS, RS or NEL; a
  line break at the very end does not open a further, empty line.
\<close>

definition is_linebreak :: "codepoint \<Rightarrow> bool" where
  "is_linebreak c =
     (case c of
        Latin b \<Rightarrow> b \<in> set [CHR 0x0A, CHR 0x0B, CHR 0x0C, CHR 0x0D, CHR 0x1C, CHR 0x1D,
                           CHR 0x1E, CHR 0x85]
      | Upsilon_Hook \<Rightarrow> False)"

fun splitlines_from :: "pystr \<Rightarrow> pystr \<Rightarrow> pystr list" where
  "splitlines_from cur [] = (if cur = [] then [] else [cur])"
| "splitlines_from cur [c] = (if is_linebreak c then [cur] else [cur @ [c]])"
| "splitlines_from cur (c # d # cs) =
     (if c = Latin (CHR 0x0D) \<and> d = Latin (CHR 0x0A) then cur # splitlines_from [] cs
      else if is_linebreak c then cur # splitlines_from [] (d # cs)
      else splitlines_from (cur @ [c]) (d # cs))"

definition splitlines :: "pystr \<Rightarrow> pystr list" where
  "splitlines s = splitlines_from [] s"

text \<open>
  The exceptions of the model. Indexing a list with \<open>[-1]\<close> gives the last element,
  and \<open>IndexError\<close> on the empty list. The \<open>sqlite3\<close> module raises \<open>OverflowError\<close>
  when an \<open>int\<close> parameter of a statement does not fit SQLite's 64-bit \<open>INTEGER\<close>.
\<close>

datatype py_error = IndexError | OverflowError

definition index_last :: "'a list \<Rightarrow> py_error + 'a" where
  "index_last xs = (if xs = [] then Inl IndexError else Inr (last xs))"

section \<open>The ingredient matcher\<close>

text \<open>
  \<open>_normalize_ingredient\<close> (db.py, lines 319 to 324): trim and lower-case the line,
  replace each of six punctuation characters by a space, split, drop the tokens that
  are all digits, and join with single spaces.
\<close>

definition punctuation :: "codepoint list" where
  "punctuation = map Latin [CHR '','', CHR ''.'', CHR '';'', CHR '':'', CHR ''('', CHR '')'']"

definition normalize_ingredient :: "pystr \<Rightarrow> pystr" where
  "normalize_ingredient line =
     (let s = lower (strip line);
          s = foldl (\<lambda>s ch. replace s ch (Latin CHR '' '')) s punctuation
      in join [Latin CHR '' ''] (filter (\<lambda>tok. \<not> isdigit tok) (split s)))"

text \<open>
  Line 337: \<open>key = item.split()[-1] if item.split() else item\<close>.
\<close>

definition ingredient_key :: "pystr \<Rightarrow> py_error + pystr" where
  "ingredient_key item = (if split item \<noteq> [] then index_last (split item) else Inr item)"

text \<open>
  Lines 333 to 339: the loop over the ingredient lines, appending every key that is
  not empty and not in the pantry.
\<close>

fun missing_loop :: "pystr list \<Rightarrow> pystr set \<Rightarrow> pystr list \<Rightarrow> py_error + pystr list" where
  "missing_loop [] pantry missing = Inr missing"
| "missing_loop (line # lines) pantry missing =
     (case ingredient_key (normalize_ingredient line) of
        Inl e \<Rightarrow> Inl e
      | Inr key \<Rightarrow>
          if key \<noteq> [] \<and> key \<notin> pantry
          then missing_loop lines pantry (missing @ [key])
          else missing_loop lines pantry missing)"

text \<open>
  Lines 341 to 346: keep the first occurrence of every element, in order.
\<close>

fun uniq_loop :: "pystr list \<Rightarrow> pystr set \<Rightarrow> pystr list \<Rightarrow> pystr list" where
  "uniq_loop [] seen uniq = uniq"
| "uniq_loop (m # ms) seen uniq =
     (if m \<notin> seen then uniq_loop ms (insert m seen) (uniq @ [m])
      else uniq_loop ms seen uniq)"

text \<open>
  Lines 332 to 347 of \<open>compute_missing_ingredients\<close>, from the lines that
  \<open>splitlines()\<close> returned and the pantry set: the lines that are blank after
  \<open>strip()\<close> are dropped first.
\<close>

definition missing_ingredients :: "pystr list \<Rightarrow> pystr set \<Rightarrow> py_error + pystr list" where
  "missing_ingredients lines pantry =
     (let ingredients_lines = filter (\<lambda>l. strip l \<noteq> []) lines
      in case missing_loop ingredients_lines pantry [] of
           Inl e \<Rightarrow> Inl e
         | Inr missing \<Rightarrow> Inr (uniq_loop missing {} []))"

section \<open>The database\<close>

text \<open>
  The four tables that \<open>init_db\<close> creates (db.py, lines 15 to 59). A row of
  \<open>pantry_items\<close> is modelled by its \<open>name\<close> alone: no statement reads the table's
  \<open>id\<close> column. The two \<open>*_seq\<close> fields hold the last id that AUTOINCREMENT handed
  out in \<open>recipes\<close> and \<open>grocery_items\<close>.
\<close>

record recipe =
  recipe_id :: int
  title :: pystr
  ingredients_text :: pystr
  steps_text :: pystr
  cook_time :: "int option"
  difficulty :: "pystr option"
  image_path :: "pystr option"
  is_favorite :: bool

record grocery_item =
  grocery_id :: int
  grocery_name :: pystr
  is_checked :: bool

record db =
  recipes :: "recipe list"
  recipes_seq :: int
  pantry_items :: "pystr list"
  grocery_items :: "grocery_item list"
  grocery_seq :: int
  recipe_notes :: "int \<rightharpoonup> pystr"

text \<open>An \<open>int\<close> that \<open>cursor.execute\<close> accepts as a parameter.\<close>

definition sqlite_int :: "int \<Rightarrow> bool" where
  "sqlite_int i = (- (2 ^ 63) \<le> i \<and> i < 2 ^ 63)"

definition empty_db :: db where
  "empty_db = \<lparr>recipes = [], recipes_seq = 0, pantry_items = [], grocery_items = [],
                grocery_seq = 0, recipe_notes = Map.empty\<rparr>"

text \<open>\<open>INSERT INTO recipes (...) VALUES (?, ?, ?, ?, ?, ?)\<close>; \<open>is_favorite\<close> defaults to 0.\<close>

definition insert_recipe ::
  "db \<Rightarrow> pystr \<Rightarrow> pystr \<Rightarrow> pystr \<Rightarrow> int option \<Rightarrow> pystr option \<Rightarrow> pystr option \<Rightarrow> db" where
  "insert_recipe d t i s ct df ip =
     d\<lparr>recipes := recipes d @
          [\<lparr>recipe_id = recipes_seq d + 1, title = t, ingredients_text = i, steps_text = s,
            cook_time = ct, difficulty = df, image_path = ip, is_favorite = False\<rparr>],
       recipes_seq := recipes_seq d + 1\<rparr>"

text \<open>\<open>insert_sample_recipes_if_empty\<close> (lines 62 to 132).\<close>

definition insert_sample_recipes_if_empty :: "db \<Rightarrow> db" where
  "insert_sample_recipes_if_empty d =
     (if recipes d \<noteq> [] then d
      else
        (let d = insert_recipe d (str ''Simple Crepes'')
               (str ''1 cup flour\<newline>2 eggs\<newline>1/2 cup milk\<newline>1/2 cup water\<newline>Pinch of salt\<newline>1 tbsp butter'')
               ((str ''1) Whisk flour and eggs.\<newline>'') @
                (str ''2) Gradually add milk and water while whisking.\<newline>'') @
                (str ''3) Add salt and melted butter; whisk until smooth.\<newline>'') @
                (str ''4) Heat a lightly oiled pan, pour batter, cook each side 1-2 minutes.''))
               (Some 20) (Some (str ''Easy'')) (Some []);
             d = insert_recipe d (str ''Pasta Aglio e Olio'')
               (str ''200g spaghetti\<newline>3 cloves garlic\<newline>4 tbsp olive oil\<newline>Red pepper flakes\<newline>Salt\<newline>Parsley'')
               ((str ''1) Cook spaghetti until al dente.\<newline>'') @
                (str ''2) Gently cook sliced garlic in olive oil; add pepper flakes.\<newline>'') @
                (str ''3) Toss pasta with oil, season with salt, finish with parsley.''))
               (Some 15) (Some (str ''Easy'')) (Some []);
             d = insert_recipe d (str ''Veggie Omelette'')
               (str ''3 eggs\<newline>1/4 cup milk\<newline>1/4 cup diced bell pepper\<newline>1/4 cup diced onion\<newline>Salt\<newline>Pepper\<newline>Olive oil'')
               ((str ''1) Whisk eggs with milk, salt, pepper.\<newline>'') @
                (str ''2) Saut'') @ [Latin (CHR 0xE9)] @ (str '' peppers and onions in oil.\<newline>'') @
                (str ''3) Pour eggs, cook until set; fold and serve.''))
               (Some 10) (Some (str ''Easy'')) (Some [])
         in d))"

text \<open>\<open>init_db\<close>: every \<open>CREATE TABLE IF NOT EXISTS\<close> keeps an existing table.\<close>

definition init_db :: "db \<Rightarrow> db" where
  "init_db d = insert_sample_recipes_if_empty d"

text \<open>
  \<open>add_recipe\<close> (lines 155 to 183) returns the new id; \<open>cook_time\<close> is its only
  \<open>int\<close> parameter.
\<close>

definition or_none :: "pystr option \<Rightarrow> pystr option" where
  "or_none v = (case v of None \<Rightarrow> None | Some s \<Rightarrow> if s = [] then None else Some s)"

definition add_recipe ::
  "db \<Rightarrow> pystr \<Rightarrow> pystr \<Rightarrow> pystr \<Rightarrow> int option \<Rightarrow> pystr option \<Rightarrow> pystr option \<Rightarrow> py_error + (db \<times> int)" where
  "add_recipe d t i s ct df ip =
     (if (case ct of None \<Rightarrow> True | Some n \<Rightarrow> sqlite_int n)
      then Inr (insert_recipe d (strip t) (strip i) (strip s) ct (or_none df) (or_none ip),
                recipes_seq d + 1)
      else Inl OverflowError)"

text \<open>
  \<open>get_recipe\<close> (lines 186 to 192): the row with this id, or \<open>None\<close>; the
  \<open>execute\<close> of line 189 raises when the id is not a 64-bit integer.
\<close>

definition get_recipe :: "db \<Rightarrow> int \<Rightarrow> py_error + recipe option" where
  "get_recipe d rid =
     (if sqlite_int rid then Inr (find (\<lambda>r. recipe_id r = rid) (recipes d))
      else Inl OverflowError)"

text \<open>\<open>set_favorite\<close> (lines 195 to 203).\<close>

definition set_favorite :: "db \<Rightarrow> int \<Rightarrow> bool \<Rightarrow> py_error + db" where
  "set_favorite d rid fav =
     (if sqlite_int rid
      then Inr (d\<lparr>recipes :=
                   map (\<lambda>r. if recipe_id r = rid then r\<lparr>is_favorite := fav\<rparr> else r)
                     (recipes d)\<rparr>)
      else Inl OverflowError)"

text \<open>\<open>list_pantry\<close> (lines 215 to 221): \<open>SELECT name ... ORDER BY name ASC\<close>.\<close>

definition list_pantry :: "db \<Rightarrow> pystr list" where
  "list_pantry d = sort_key (map code_point) (pantry_items d)"

text \<open>
  \<open>add_pantry_item\<close> (lines 224 to 233): nothing for the empty name; otherwise
  \<open>INSERT OR IGNORE\<close> of \<open>name.strip().lower()\<close>, which the \<open>UNIQUE\<close> constraint on
  \<open>name\<close> ignores when a row already holds that string.
\<close>

definition add_pantry_item :: "db \<Rightarrow> pystr \<Rightarrow> db" where
  "add_pantry_item d name =
     (if name = [] then d
      else if lower (strip name) \<in> set (pantry_items d) then d
      else d\<lparr>pantry_items := pantry_items d @ [lower (strip name)]\<rparr>)"

text \<open>\<open>remove_pantry_item\<close> (lines 236 to 241).\<close>

definition remove_pantry_item :: "db \<Rightarrow> pystr \<Rightarrow> db" where
  "remove_pantry_item d name =
     d\<lparr>pantry_items := filter (\<lambda>n. n \<noteq> lower (strip name)) (pantry_items d)\<rparr>"

text \<open>\<open>add_grocery_item\<close> (lines 253 to 260).\<close>

definition add_grocery_item :: "db \<Rightarrow> pystr \<Rightarrow> db" where
  "add_grocery_item d name =
     (if name = [] then d
      else d\<lparr>grocery_items := grocery_items d @
               [\<lparr>grocery_id = grocery_seq d + 1, grocery_name = lower (strip name),
                 is_checked = False\<rparr>],
             grocery_seq := grocery_seq d + 1\<rparr>)"

text \<open>\<open>remove_grocery_item\<close>, \<open>clear_grocery\<close>, \<open>set_grocery_checked\<close> (lines 263 to 287).\<close>

definition remove_grocery_item :: "db \<Rightarrow> int \<Rightarrow> py_error + db" where
  "remove_grocery_item d item_id =
     (if sqlite_int item_id
      then Inr (d\<lparr>grocery_items := filter (\<lambda>g. grocery_id g \<noteq> item_id) (grocery_items d)\<rparr>)
      else Inl OverflowError)"

definition clear_grocery :: "db \<Rightarrow> db" where
  "clear_grocery d = d\<lparr>grocery_items := []\<rparr>"

definition set_grocery_checked :: "db \<Rightarrow> int \<Rightarrow> bool \<Rightarrow> py_error + db" where
  "set_grocery_checked d item_id checked =
     (if sqlite_int item_id
      then Inr (d\<lparr>grocery_items :=
                   map (\<lambda>g. if grocery_id g = item_id then g\<lparr>is_checked := checked\<rparr> else g)
                     (grocery_items d)\<rparr>)
      else Inl OverflowError)"

text \<open>\<open>set_recipe_notes\<close> (lines 307 to 316): insert, or update on conflict.\<close>

definition set_recipe_notes :: "db \<Rightarrow> int \<Rightarrow> pystr \<Rightarrow> py_error + db" where
  "set_recipe_notes d rid notes_text =
     (if sqlite_int rid then Inr (d\<lparr>recipe_notes := (recipe_notes d)(rid \<mapsto> notes_text)\<rparr>)
      else Inl OverflowError)"

text \<open>
  \<open>compute_missing_ingredients\<close> (lines 327 to 347): the empty list when no recipe has
  this id, otherwise the matcher on the recipe's lines and the pantry. An exception of
  \<open>get_recipe\<close> goes through.
\<close>

definition compute_missing_ingredients :: "db \<Rightarrow> int \<Rightarrow> py_error + pystr list" where
  "compute_missing_ingredients d rid =
     (case get_recipe d rid of
        Inl e \<Rightarrow> Inl e
      | Inr None \<Rightarrow> Inr []
      | Inr (Some recipe) \<Rightarrow>
          missing_ingredients (splitlines (ingredients_text recipe)) (set (list_pantry d)))"

text \<open>
  \<open>add_missing_to_grocery\<close> (lines 350 to 354): every missing key goes to
  \<open>add_grocery_item\<close>; the keys are returned with the new database.
\<close>

definition add_missing_to_grocery :: "db \<Rightarrow> int \<Rightarrow> py_error + (db \<times> pystr list)" where
  "add_missing_to_grocery d rid =
     (case compute_missing_ingredients d rid of
        Inl e \<Rightarrow> Inl e
      | Inr missing \<Rightarrow> Inr (foldl add_grocery_item d missing, missing))"

text \<open>
  The calls that write to the database, and a run of them from the database that
  \<open>init_db\<close> makes of an empty file. A call that raises does so before it writes, and
  leaves the database as it was.
\<close>

definition keep_on_error :: "db \<Rightarrow> py_error + db \<Rightarrow> db" where
  "keep_on_error d r = (case r of Inl e \<Rightarrow> d | Inr d' \<Rightarrow> d')"

datatype op =
    InitDb
  | AddRecipe pystr pystr pystr "int option" "pystr option" "pystr option"
  | SetFavorite int bool
  | AddPantryItem pystr
  | RemovePantryItem pystr
  | AddGroceryItem pystr
  | RemoveGroceryItem int
  | ClearGrocery
  | SetGroceryChecked int bool
  | SetRecipeNotes int pystr
  | AddMissingToGrocery int

fun exec :: "db \<Rightarrow> op \<Rightarrow> db" where
  "exec d InitDb = init_db d"
| "exec d (AddRecipe t i s ct df ip) = keep_on_error d (map_sum id fst (add_recipe d t i s ct df ip))"
| "exec d (SetFavorite rid fav) = keep_on_error d (set_favorite d rid fav)"
| "exec d (AddPantryItem name) = add_pantry_item d name"
| "exec d (RemovePantryItem name) = remove_pantry_item d name"
| "exec d (AddGroceryItem name) = add_grocery_item d name"
| "exec d (RemoveGroceryItem item_id) = keep_on_error d (remove_grocery_item d item_id)"
| "exec d ClearGrocery = clear_grocery d"
| "exec d (SetGroceryChecked item_id checked) = keep_on_error d (set_grocery_checked d item_id checked)"
| "exec d (SetRecipeNotes rid notes_text) = keep_on_error d (set_recipe_notes d rid notes_text)"
| "exec d (AddMissingToGrocery rid) = keep_on_error d (map_sum id fst (add_missing_to_grocery d rid))"

definition run :: "op list \<Rightarrow> db" where
  "run ops = foldl exec (init_db empty_db) ops"

section \<open>The specification's reading of the matcher\<close>

text \<open>
  The normalizer as the specification words it: lower-case the line, put a space for
  each of the characters \<open>, . ; : ( )\<close>, split on white space, drop the tokens that are
  purely numeric (the test of the code, \<open>isdigit\<close>), join with single spaces. There is
  no trimming step in this reading.
\<close>

definition normalize_spec :: "pystr \<Rightarrow> pystr" where
  "normalize_spec line =
     join [Latin CHR '' '']
       (filter (\<lambda>tok. \<not> isdigit tok)
          (split (map (\<lambda>c. if c \<in> set (str '',.;:()'') then (Latin CHR '' '') else c) (lower line))))"

text \<open>The last token of a string that white space separates; empty when there is none.\<close>

definition last_token :: "pystr \<Rightarrow> pystr" where
  "last_token s = (if split s = [] then [] else last (split s))"

text \<open>The comparison key of an ingredient line: the last token of its normal form.\<close>

definition line_key :: "pystr \<Rightarrow> pystr" where
  "line_key line = last_token (normalize_ingredient line)"

text \<open>A blank line has nothing but white space.\<close>

definition blank :: "pystr \<Rightarrow> bool" where
  "blank line = list_all isspace line"

text \<open>Every element once, at the place of its first occurrence.\<close>

primrec first_occurrences :: "'a list \<Rightarrow> 'a list" where
  "first_occurrences [] = []"
| "first_occurrences (x # xs) = x # filter (\<lambda>y. y \<noteq> x) (first_occurrences xs)"

text \<open>
  The missing ingredients as the specification words them: the keys of the lines that
  are not blank, in order; those that are not empty and not in the pantry; duplicates
  removed, first occurrences kept.
\<close>

definition missing_spec :: "pystr list \<Rightarrow> pystr set \<Rightarrow> pystr list" where
  "missing_spec lines pantry =
     first_occurrences
       (filter (\<lambda>key. key \<noteq> [] \<and> key \<notin> pantry)
          (map line_key (filter (\<lambda>line. \<not> blank line) lines)))"

text \<open>
  The index of the first line that is not blank and has this key; the number of lines
  when no line has it.
\<close>

definition first_line :: "pystr list \<Rightarrow> pystr \<Rightarrow> nat" where
  "first_line lines key =
     length (takeWhile (\<lambda>line. \<not> (\<not> blank line \<and> line_key line = key)) lines)"

section \<open>Auxiliary notions of the proofs\<close>

text \<open>The replacement loop of the normalizer, over any list of characters.\<close>

definition replace_punctuation :: "pystr \<Rightarrow> codepoint list \<Rightarrow> pystr" where
  "replace_punctuation s ps = foldl (\<lambda>s ch. replace s ch (Latin CHR '' '')) s ps"

text \<open>
  A character that the normalizer leaves alone inside a token, and a token that the
  normalizer keeps.
\<close>

definition plain_char :: "codepoint \<Rightarrow> bool" where
  "plain_char c = (\<not> isspace c \<and> c \<notin> set punctuation \<and> lower_char c = c)"

definition plain_token :: "pystr \<Rightarrow> bool" where
  "plain_token t = (t \<noteq> [] \<and> list_all plain_char t \<and> \<not> isdigit t)"

text \<open>
  The invariant of the pantry table: the names are pairwise different, and every name
  is trimmed and lower-cased. The invariant of the grocery table: lower-casing changes
  no character of a name, so a capital letter in a name is one that has no small letter.
\<close>

definition pantry_inv :: "db \<Rightarrow> bool" where
  "pantry_inv d =
     (distinct (pantry_items d) \<and> list_all (\<lambda>e. strip e = e \<and> lower e = e) (pantry_items d))"

definition grocery_inv :: "db \<Rightarrow> bool" where
  "grocery_inv d =
     list_all
       (\<lambda>g. list_all (\<lambda>c. lower_char c = c \<and> (\<not> isupper_char c \<or> c = Upsilon_Hook))
              (grocery_name g))
       (grocery_items d)"

section \<open>Lemmas\<close>

subsection \<open>Character classes\<close>

lemma isupper_char_not_space: "isupper_char c \<Longrightarrow> \<not> isspace c"
  by (auto simp: isupper_char_def isspace_def Let_def split: codepoint.splits)

lemma isspace_space: "isspace (Latin CHR '' '')"
  by (simp add: isspace_def)

lemma lower_char_space: "lower_char (Latin CHR '' '') = Latin CHR '' ''"
  by (simp add: lower_char_def isupper_char_def)

lemma isspace_codes:
  "isspace (Latin x) \<Longrightarrow> (of_char x :: nat) \<in> {9, 10, 11, 12, 13, 28, 29, 30, 31, 32, 133, 160}"
  by (auto simp: isspace_def)

lemma lower_char_capital:
  assumes "isupper_char (Latin b)"
  shows "lower_char (Latin b) = Latin (char_of ((of_char b :: nat) + 32))"
    and "\<not> isupper_char (Latin (char_of ((of_char b :: nat) + 32)))"
    and "\<not> isspace (Latin (char_of ((of_char b :: nat) + 32)))"
    and "char_of ((of_char b :: nat) + 32) \<noteq> b"
proof -
  let ?n = "of_char b :: nat"
  from assms have r: "(65 \<le> ?n \<and> ?n \<le> 90) \<or> (192 \<le> ?n \<and> ?n \<le> 214) \<or> (216 \<le> ?n \<and> ?n \<le> 222)"
    by (simp add: isupper_char_def Let_def)
  then have m: "(of_char (char_of (?n + 32) :: char) :: nat) = ?n + 32"
    by auto
  show "lower_char (Latin b) = Latin (char_of (?n + 32))"
    using assms by (simp add: lower_char_def)
  show "\<not> isupper_char (Latin (char_of (?n + 32)))"
    using r m by (auto simp: isupper_char_def Let_def)
  show "\<not> isspace (Latin (char_of (?n + 32)))"
  proof
    assume "isspace (Latin (char_of (?n + 32)))"
    then have "(of_char (char_of (?n + 32) :: char) :: nat)
                 \<in> {9, 10, 11, 12, 13, 28, 29, 30, 31, 32, 133, 160}"
      by (rule isspace_codes)
    then have "?n + 32 \<in> {9, 10, 11, 12, 13, 28, 29, 30, 31, 32, 133, 160}"
      by (simp only: m)
    with r show False by auto
  qed
  show "char_of (?n + 32) \<noteq> b"
  proof
    assume "char_of (?n + 32) = b"
    then have "(of_char (char_of (?n + 32) :: char) :: nat) = ?n" by simp
    with m show False by simp
  qed
qed

lemma lower_char_idem: "lower_char (lower_char c) = lower_char c"
proof (cases c)
  case (Latin b)
  show ?thesis
  proof (cases "isupper_char (Latin b)")
    case True
    from lower_char_capital(1,2) [OF True] show ?thesis
      by (simp add: Latin lower_char_def)
  next
    case False
    then show ?thesis by (simp add: Latin lower_char_def)
  qed
next
  case Upsilon_Hook
  then show ?thesis by (simp add: lower_char_def)
qed

lemma isspace_lower_char: "isspace (lower_char c) = isspace c"
proof (cases c)
  case (Latin b)
  show ?thesis
  proof (cases "isupper_char (Latin b)")
    case True
    from lower_char_capital(1,3) [OF True] isupper_char_not_space [OF True] show ?thesis
      by (simp add: Latin)
  next
    case False
    then show ?thesis by (simp add: Latin lower_char_def)
  qed
next
  case Upsilon_Hook
  then show ?thesis by (simp add: lower_char_def)
qed

lemma capital_fixed_iff: "(isupper_char c \<and> lower_char c = c) = (c = Upsilon_Hook)"
proof (cases c)
  case (Latin b)
  show ?thesis
  proof (cases "isupper_char (Latin b)")
    case True
    from lower_char_capital(1,4) [OF True] show ?thesis by (simp add: Latin)
  next
    case False
    then show ?thesis by (simp add: Latin)
  qed
next
  case Upsilon_Hook
  then show ?thesis by (simp add: lower_char_def isupper_char_def)
qed

subsection \<open>Lower-casing, replacing and trimming\<close>

lemma lower_append: "lower (a @ b) = lower a @ lower b"
  by (simp add: lower_def)

lemma replace_map: "replace s old new = map (\<lambda>c. if c = old then new else c) s"
  by (induction s) auto

lemma replace_append: "replace (a @ b) old new = replace a old new @ replace b old new"
  by (simp add: replace_map)

lemma replace_absent: "old \<notin> set s \<Longrightarrow> replace s old new = s"
  by (induction s) auto

lemma replace_punctuation_append:
  "replace_punctuation (a @ b) ps = replace_punctuation a ps @ replace_punctuation b ps"
  unfolding replace_punctuation_def
  by (induction ps arbitrary: a b) (simp_all add: replace_append)

lemma replace_punctuation_absent:
  "set s \<inter> set ps = {} \<Longrightarrow> replace_punctuation s ps = s"
  unfolding replace_punctuation_def
  by (induction ps arbitrary: s) (auto simp: replace_absent)

lemma replace_space: "list_all isspace s \<Longrightarrow> list_all isspace (replace s old (Latin CHR '' ''))"
  by (induction s) (auto simp: isspace_def)

lemma replace_punctuation_space:
  "list_all isspace s \<Longrightarrow> list_all isspace (replace_punctuation s ps)"
  unfolding replace_punctuation_def
  by (induction ps arbitrary: s) (simp_all add: replace_space)

lemma set_replace: "set (replace s old new) \<subseteq> insert new (set s - {old})"
  by (induction s) auto

lemma set_replace_punctuation:
  "(Latin CHR '' '') \<notin> set ps \<Longrightarrow>
   set (replace_punctuation s ps) \<subseteq> insert (Latin CHR '' '') (set s - set ps)"
proof (induction ps arbitrary: s)
  case Nil
  then show ?case by (auto simp: replace_punctuation_def)
next
  case (Cons p ps)
  have "set (replace_punctuation (replace s p (Latin CHR '' '')) ps)
          \<subseteq> insert (Latin CHR '' '') (set (replace s p (Latin CHR '' '')) - set ps)"
    using Cons by simp
  moreover have "replace_punctuation s (p # ps) = replace_punctuation (replace s p (Latin CHR '' '')) ps"
    by (simp add: replace_punctuation_def)
  ultimately show ?case
    using set_replace [of s p "(Latin CHR '' '')"] by auto
qed

subsection \<open>Splitting and joining\<close>

lemma split_from_nonspace:
  "list_all (\<lambda>c. \<not> isspace c) t \<Longrightarrow> split_from cur (t @ rest) = split_from (cur @ t) rest"
  by (induction t arbitrary: cur) simp_all

lemma split_from_leading_space:
  "list_all isspace pre \<Longrightarrow> split_from [] (pre @ s) = split_from [] s"
  by (induction pre) simp_all

lemma split_from_trailing_space:
  "list_all isspace post \<Longrightarrow> split_from cur (s @ post) = split_from cur s"
proof (induction s arbitrary: cur)
  case Nil
  then show ?case by (induction post arbitrary: cur) auto
next
  case (Cons c s)
  then show ?case by simp
qed

lemma split_padding:
  "list_all isspace pre \<Longrightarrow> list_all isspace post \<Longrightarrow> split (pre @ s @ post) = split s"
  by (simp add: split_def split_from_leading_space split_from_trailing_space)

lemma dropWhile_strip:
  "dropWhile isspace s = strip s @ rev (takeWhile isspace (rev (dropWhile isspace s)))"
proof -
  let ?r = "dropWhile isspace s"
  have "takeWhile isspace (rev ?r) @ dropWhile isspace (rev ?r) = rev ?r"
    by (rule takeWhile_dropWhile_id)
  then have "rev (takeWhile isspace (rev ?r) @ dropWhile isspace (rev ?r)) = ?r"
    by (simp only: rev_rev_ident)
  then have "rev (dropWhile isspace (rev ?r)) @ rev (takeWhile isspace (rev ?r)) = ?r"
    by (simp only: rev_append)
  then show ?thesis
    unfolding strip_def by (rule sym)
qed

lemma strip_padding:
  "\<exists>pre post. s = pre @ strip s @ post \<and> list_all isspace pre \<and> list_all isspace post"
proof -
  let ?a = "takeWhile isspace s" and ?r = "dropWhile isspace s"
  let ?b = "rev (takeWhile isspace (rev ?r))"
  have "s = ?a @ ?r" by simp
  with dropWhile_strip [of s] have "s = ?a @ strip s @ ?b" by simp
  moreover have "list_all isspace ?a" by (simp add: list_all_iff) (meson set_takeWhileD)
  moreover have "list_all isspace ?b" by (simp add: list_all_iff) (meson set_takeWhileD)
  ultimately show ?thesis by blast
qed

lemma split_from_tokens:
  "list_all (\<lambda>c. \<not> isspace c) cur \<Longrightarrow> t \<in> set (split_from cur s) \<Longrightarrow>
   t \<noteq> [] \<and> list_all (\<lambda>c. \<not> isspace c) t \<and> set t \<subseteq> set cur \<union> set s"
proof (induction cur s rule: split_from.induct)
  case (1 cur)
  then show ?case by (auto split: if_splits)
next
  case (2 cur c cs)
  then show ?case by (auto split: if_splits)
qed

lemma split_tokens:
  "t \<in> set (split s) \<Longrightarrow> t \<noteq> [] \<and> list_all (\<lambda>c. \<not> isspace c) t \<and> set t \<subseteq> set s"
  using split_from_tokens [of "[]" t s] by (simp add: split_def)

lemma split_from_separator:
  "list_all isspace sep \<Longrightarrow> sep \<noteq> [] \<Longrightarrow> cur \<noteq> [] \<Longrightarrow>
   split_from cur (sep @ rest) = cur # split_from [] rest"
  by (cases sep) (simp_all add: split_from_leading_space)

lemma split_join_gen:
  "list_all isspace sep \<Longrightarrow> sep \<noteq> [] \<Longrightarrow>
   list_all (\<lambda>t. t \<noteq> [] \<and> list_all (\<lambda>c. \<not> isspace c) t) ts \<Longrightarrow> split (join sep ts) = ts"
proof (induction sep ts rule: join.induct)
  case (1 sep)
  then show ?case by (simp add: split_def)
next
  case (2 sep t)
  then show ?case
    using split_from_nonspace [of t "[]" "[]"] by (simp add: split_def)
next
  case (3 sep t u ts)
  then have "split_from [] (t @ sep @ join sep (u # ts)) = split_from t (sep @ join sep (u # ts))"
    using split_from_nonspace [of t "[]"] by simp
  also have "\<dots> = t # split_from [] (join sep (u # ts))"
    using 3 by (simp add: split_from_separator)
  finally show ?case using 3 by (simp add: split_def)
qed

lemma split_join:
  "list_all (\<lambda>t. t \<noteq> [] \<and> list_all (\<lambda>c. \<not> isspace c) t) ts \<Longrightarrow> split (join [Latin CHR '' ''] ts) = ts"
  by (rule split_join_gen) (simp_all add: isspace_def)

lemma set_join: "set (join sep ts) \<subseteq> set sep \<union> \<Union> (set ` set ts)"
  by (induction sep ts rule: join.induct) auto

subsection \<open>The normalizer\<close>

lemma replace_punctuation_map:
  "replace_punctuation s ps = map (\<lambda>c. if c \<in> set ps then (Latin CHR '' '') else c) s"
proof (induction ps arbitrary: s)
  case Nil
  then show ?case by (simp add: replace_punctuation_def)
next
  case (Cons p ps)
  have "replace_punctuation s (p # ps) = replace_punctuation (replace s p (Latin CHR '' '')) ps"
    by (simp add: replace_punctuation_def)
  then show ?case by (simp add: Cons replace_map)
qed

lemma normalize_ingredient_unfold:
  "normalize_ingredient line =
     join [Latin CHR '' ''] (filter (\<lambda>tok. \<not> isdigit tok)
       (split (replace_punctuation (lower (strip line)) punctuation)))"
  by (simp add: normalize_ingredient_def replace_punctuation_def Let_def)

lemma lower_space: "list_all isspace s \<Longrightarrow> list_all isspace (lower s)"
  by (induction s) (simp_all add: lower_def isspace_lower_char)

lemma split_strip_invariant:
  "split (replace_punctuation (lower (strip line)) ps) = split (replace_punctuation (lower line) ps)"
proof -
  obtain pre post where p: "line = pre @ strip line @ post"
    and pre: "list_all isspace pre" and post: "list_all isspace post"
    using strip_padding by blast
  let ?f = "\<lambda>s. replace_punctuation (lower s) ps"
  have "?f line = ?f (pre @ strip line @ post)" using p by simp
  also have "\<dots> = ?f pre @ ?f (strip line) @ ?f post"
    by (simp add: lower_append replace_punctuation_append)
  finally have "split (?f line) = split (?f pre @ ?f (strip line) @ ?f post)" by simp
  also have "\<dots> = split (?f (strip line))"
    by (rule split_padding) (simp_all add: pre post lower_space replace_punctuation_space)
  finally show ?thesis by simp
qed

lemma normalize_ingredient_pipeline: "normalize_ingredient line = normalize_spec line"
  unfolding normalize_ingredient_unfold split_strip_invariant
  by (simp only: replace_punctuation_map punctuation_def normalize_spec_def)

lemma normalize_tokens_plain:
  "list_all plain_token
     (filter (\<lambda>tok. \<not> isdigit tok) (split (replace_punctuation (lower s) punctuation)))"
proof -
  let ?u = "replace_punctuation (lower s) punctuation"
  have sp: "(Latin CHR '' '') \<notin> set punctuation" by (simp add: punctuation_def)
  have chars: "c = (Latin CHR '' '') \<or> (c \<notin> set punctuation \<and> lower_char c = c)" if "c \<in> set ?u" for c
  proof -
    from that set_replace_punctuation [OF sp, of "lower s"]
    have "c = (Latin CHR '' '') \<or> (c \<in> set (lower s) \<and> c \<notin> set punctuation)" by auto
    then show ?thesis by (auto simp: lower_def lower_char_idem)
  qed
  have "plain_token t" if t: "t \<in> set (split ?u)" and d: "\<not> isdigit t" for t
  proof -
    from split_tokens [OF t]
    have ne: "t \<noteq> []" and ns: "list_all (\<lambda>c. \<not> isspace c) t" and sub: "set t \<subseteq> set ?u"
      by simp_all
    have "plain_char c" if "c \<in> set t" for c
    proof -
      from that ns have nsc: "\<not> isspace c" by (simp add: list_all_iff)
      then have "c \<noteq> (Latin CHR '' '')" by (auto simp: isspace_def)
      with chars [of c] that sub nsc show ?thesis by (auto simp: plain_char_def)
    qed
    with ne d show ?thesis by (simp add: plain_token_def list_all_iff)
  qed
  then show ?thesis by (simp add: list_all_iff)
qed

lemma normalize_ingredient_tokens:
  "\<exists>ts. normalize_ingredient line = join [Latin CHR '' ''] ts \<and> list_all plain_token ts"
  using normalize_tokens_plain [of "strip line"] by (auto simp: normalize_ingredient_unfold)

lemma plain_tokens_split:
  "list_all plain_token ts \<Longrightarrow> split (join [Latin CHR '' ''] ts) = ts"
  by (rule split_join) (auto simp: list_all_iff plain_token_def plain_char_def)

lemma join_plain_fixed:
  assumes "list_all plain_token ts"
  shows "normalize_ingredient (join [Latin CHR '' ''] ts) = join [Latin CHR '' ''] ts"
proof -
  let ?s = "join [Latin CHR '' ''] ts"
  have chars: "c = (Latin CHR '' '') \<or> plain_char c" if "c \<in> set ?s" for c
    using that set_join [of "[Latin CHR '' '']" ts] assms by (auto simp: list_all_iff plain_token_def)
  have low: "lower ?s = ?s"
    unfolding lower_def
  proof (rule map_idI)
    fix c assume "c \<in> set ?s"
    with chars [of c] show "lower_char c = c"
      by (auto simp: plain_char_def lower_char_space)
  qed
  have "set ?s \<inter> set punctuation = {}"
    using chars by (auto simp: plain_char_def punctuation_def)
  then have rp: "replace_punctuation ?s punctuation = ?s"
    by (rule replace_punctuation_absent)
  have keep: "filter (\<lambda>tok. \<not> isdigit tok) ts = ts"
    using assms by (simp add: list_all_iff plain_token_def)
  have "normalize_ingredient ?s =
          join [Latin CHR '' '']
            (filter (\<lambda>tok. \<not> isdigit tok) (split (replace_punctuation (lower ?s) punctuation)))"
    by (simp only: normalize_ingredient_unfold split_strip_invariant)
  also have "\<dots> = join [Latin CHR '' ''] (filter (\<lambda>tok. \<not> isdigit tok) (split ?s))"
    by (simp only: low rp)
  also have "\<dots> = ?s"
    by (simp only: plain_tokens_split [OF assms] keep)
  finally show ?thesis .
qed

lemma normalize_ingredient_idem:
  "normalize_ingredient (normalize_ingredient s) = normalize_ingredient s"
  using normalize_ingredient_tokens [of s] join_plain_fixed by auto

lemma ingredient_key_normalized:
  "ingredient_key (normalize_ingredient line) = Inr (last_token (normalize_ingredient line))"
proof -
  obtain ts where n: "normalize_ingredient line = join [Latin CHR '' ''] ts" and pl: "list_all plain_token ts"
    using normalize_ingredient_tokens by blast
  have sp: "split (join [Latin CHR '' ''] ts) = ts" by (rule plain_tokens_split [OF pl])
  show ?thesis
  proof (cases "ts = []")
    case True
    then show ?thesis by (simp add: n ingredient_key_def last_token_def split_def)
  next
    case False
    then show ?thesis by (simp add: n ingredient_key_def last_token_def sp index_last_def)
  qed
qed

lemma last_token_normalized_empty:
  "last_token (normalize_ingredient line) = [] \<longleftrightarrow> normalize_ingredient line = []"
proof -
  obtain ts where n: "normalize_ingredient line = join [Latin CHR '' ''] ts" and pl: "list_all plain_token ts"
    using normalize_ingredient_tokens by blast
  have sp: "split (join [Latin CHR '' ''] ts) = ts" by (rule plain_tokens_split [OF pl])
  show ?thesis
  proof (cases ts rule: rev_cases)
    case Nil
    then show ?thesis by (simp add: n last_token_def split_def)
  next
    case (snoc us u)
    then have u: "u \<noteq> []" using pl by (simp add: plain_token_def)
    from snoc sp have sp': "split (normalize_ingredient line) = us @ [u]" by (simp add: n)
    then have "normalize_ingredient line \<noteq> []" by (auto simp: split_def)
    with u sp' show ?thesis by (simp add: last_token_def)
  qed
qed

subsection \<open>The two loops of the matcher\<close>

lemma strip_empty_iff: "strip s = [] \<longleftrightarrow> blank s"
proof
  let ?r = "dropWhile isspace s"
  assume e: "strip s = []"
  have "?r = []"
  proof (rule ccontr)
    assume ne: "?r \<noteq> []"
    then have "\<not> isspace (hd ?r)" by (rule hd_dropWhile)
    moreover from e have "dropWhile isspace (rev ?r) = []"
      by (simp add: strip_def)
    then have "\<forall>x \<in> set ?r. isspace x"
      by (simp only: dropWhile_eq_Nil_conv set_rev)
    ultimately show False using hd_in_set [OF ne] by blast
  qed
  then show "blank s" by (simp add: blank_def dropWhile_eq_Nil_conv list_all_iff)
next
  assume "blank s"
  then have "dropWhile isspace s = []"
    by (simp add: blank_def dropWhile_eq_Nil_conv list_all_iff)
  then show "strip s = []" by (simp only: strip_def rev.simps dropWhile.simps)
qed

lemma missing_loop_eq:
  "missing_loop ls pantry acc =
     Inr (acc @ filter (\<lambda>key. key \<noteq> [] \<and> key \<notin> pantry) (map line_key ls))"
  by (induction ls arbitrary: acc) (simp_all add: ingredient_key_normalized line_key_def)

lemma filter_first_occurrences:
  "filter P (first_occurrences xs) = first_occurrences (filter P xs)"
proof (induction xs)
  case Nil
  then show ?case by simp
next
  case (Cons x xs)
  show ?case
  proof (cases "P x")
    case True
    have "filter P (filter (\<lambda>y. y \<noteq> x) (first_occurrences xs))
            = filter (\<lambda>y. y \<noteq> x) (filter P (first_occurrences xs))"
      by (simp add: conj_commute)
    with True Cons show ?thesis by simp
  next
    case False
    then have "filter P (filter (\<lambda>y. y \<noteq> x) (first_occurrences xs)) = filter P (first_occurrences xs)"
      by (auto intro: filter_cong)
    with False Cons show ?thesis by simp
  qed
qed

lemma uniq_loop_eq:
  "uniq_loop ms seen acc = acc @ first_occurrences (filter (\<lambda>m. m \<notin> seen) ms)"
proof (induction ms arbitrary: seen acc)
  case Nil
  then show ?case by simp
next
  case (Cons m ms)
  show ?case
  proof (cases "m \<in> seen")
    case True
    then show ?thesis by (simp add: Cons)
  next
    case False
    have "filter (\<lambda>x. x \<notin> insert m seen) ms = filter (\<lambda>y. y \<noteq> m) (filter (\<lambda>x. x \<notin> seen) ms)"
      by (auto intro: filter_cong)
    with False show ?thesis by (simp add: Cons filter_first_occurrences)
  qed
qed

lemma missing_ingredients_eq: "missing_ingredients ls pantry = Inr (missing_spec ls pantry)"
  by (simp add: missing_ingredients_def missing_loop_eq uniq_loop_eq missing_spec_def
      strip_empty_iff)

lemma set_first_occurrences: "set (first_occurrences xs) = set xs"
  by (induction xs) auto

lemma distinct_first_occurrences: "distinct (first_occurrences xs)"
  by (induction xs) (auto simp: set_first_occurrences)

lemma set_missing_spec:
  "set (missing_spec ls pantry) =
     {key. key \<noteq> [] \<and> key \<notin> pantry \<and> (\<exists>l \<in> set ls. \<not> blank l \<and> line_key l = key)}"
  by (auto simp: missing_spec_def set_first_occurrences)

lemma first_line_Cons:
  "first_line (l # ls) key = (if \<not> blank l \<and> line_key l = key then 0 else Suc (first_line ls key))"
  by (simp add: first_line_def)

lemma blank_line_key: "blank l \<Longrightarrow> line_key l = []"
proof -
  assume "blank l"
  then have "strip l = []" by (simp add: strip_empty_iff)
  then show ?thesis
    by (simp add: line_key_def last_token_def normalize_ingredient_unfold lower_def
        replace_punctuation_def punctuation_def split_def)
qed

lemma missing_spec_Cons:
  "missing_spec (l # ls) pantry =
     (if \<not> blank l \<and> line_key l \<noteq> [] \<and> line_key l \<notin> pantry
      then line_key l # filter (\<lambda>y. y \<noteq> line_key l) (missing_spec ls pantry)
      else missing_spec ls pantry)"
  by (simp add: missing_spec_def)

lemma missing_spec_sorted:
  "sorted_wrt (\<lambda>a b. first_line ls a < first_line ls b) (missing_spec ls pantry)"
proof (induction ls)
  case Nil
  then show ?case by (simp add: missing_spec_def)
next
  case (Cons l ls)
  let ?R = "\<lambda>a b. first_line ls a < first_line ls b"
  let ?R' = "\<lambda>a b. first_line (l # ls) a < first_line (l # ls) b"
  show ?case
  proof (cases "\<not> blank l \<and> line_key l \<noteq> [] \<and> line_key l \<notin> pantry")
    case True
    let ?rest = "filter (\<lambda>y. y \<noteq> line_key l) (missing_spec ls pantry)"
    have "sorted_wrt ?R ?rest" using Cons by (rule sorted_wrt_filter)
    then have "sorted_wrt ?R' ?rest"
      by (rule sorted_wrt_mono_rel [rotated]) (auto simp: first_line_Cons)
    moreover have "\<forall>y \<in> set ?rest. ?R' (line_key l) y"
      using True by (auto simp: first_line_Cons)
    ultimately show ?thesis using True by (simp add: missing_spec_Cons)
  next
    case False
    have "line_key l \<noteq> y \<or> blank l" if "y \<in> set (missing_spec ls pantry)" for y
      using that False by (auto simp: set_missing_spec)
    then have "sorted_wrt ?R' (missing_spec ls pantry)"
      using Cons by - (rule sorted_wrt_mono_rel [rotated], assumption, auto simp: first_line_Cons)
    then show ?thesis by (simp only: missing_spec_Cons False if_False)
  qed
qed

lemma takeWhile_stops: "x \<in> set xs \<Longrightarrow> \<not> P x \<Longrightarrow> length (takeWhile P xs) < length xs"
  by (induction xs) auto

lemma first_line_less:
  "key \<in> set (missing_spec ls pantry) \<Longrightarrow> first_line ls key < length ls"
proof -
  assume "key \<in> set (missing_spec ls pantry)"
  then obtain l where "l \<in> set ls" "\<not> blank l" "line_key l = key"
    by (auto simp: set_missing_spec)
  then show ?thesis
    unfolding first_line_def by (intro takeWhile_stops [of l]) auto
qed

subsection \<open>Stored names\<close>

lemma lower_idem: "lower (lower s) = lower s"
  by (simp add: lower_def lower_char_idem)

lemma lower_char_fixed:
  "lower_char (lower_char c) = lower_char c \<and>
   (\<not> isupper_char (lower_char c) \<or> lower_char c = Upsilon_Hook)"
  using capital_fixed_iff [of "lower_char c"] lower_char_idem [of c] by blast

lemma lower_fixed:
  "list_all (\<lambda>c. lower_char c = c \<and> (\<not> isupper_char c \<or> c = Upsilon_Hook)) (lower s)"
  using lower_char_fixed by (auto simp: lower_def list_all_iff)

lemma dropWhile_isspace_lower: "dropWhile isspace (lower s) = lower (dropWhile isspace s)"
  by (induction s) (simp_all add: lower_def isspace_lower_char)

lemma strip_lower: "strip (lower s) = lower (strip s)"
proof -
  have "rev (lower s) = lower (rev s)" for s by (simp add: lower_def rev_map)
  then show ?thesis by (simp add: strip_def dropWhile_isspace_lower)
qed

lemma dropWhile_isspace_strip: "dropWhile isspace (strip s) = strip s"
proof (cases "strip s")
  case Nil
  then show ?thesis by simp
next
  case (Cons c cs)
  let ?r = "dropWhile isspace s"
  from dropWhile_strip [of s] Cons obtain post where r: "?r = c # cs @ post" by simp
  then have "?r \<noteq> []" by simp
  then have "\<not> isspace (hd ?r)" by (rule hd_dropWhile)
  with r have "\<not> isspace c" by simp
  with Cons show ?thesis by simp
qed

lemma strip_idem: "strip (strip s) = strip s"
proof -
  have "rev (strip s) = dropWhile isspace (rev (dropWhile isspace s))" by (simp add: strip_def)
  then have "dropWhile isspace (rev (strip s)) = rev (strip s)"
    by (simp add: dropWhile_idem)
  then show ?thesis by (simp add: strip_def [of "strip s"] dropWhile_isspace_strip)
qed

lemma stored_name_fixed:
  "strip (lower (strip name)) = lower (strip name) \<and> lower (lower (strip name)) = lower (strip name)"
  by (simp add: strip_lower strip_idem lower_idem)

subsection \<open>Invariants of the tables\<close>

lemma insert_recipe_tables:
  "pantry_items (insert_recipe d t i s ct df ip) = pantry_items d"
  "grocery_items (insert_recipe d t i s ct df ip) = grocery_items d"
  by (simp_all add: insert_recipe_def)

lemma init_db_tables:
  "pantry_items (init_db d) = pantry_items d"
  "grocery_items (init_db d) = grocery_items d"
  by (simp_all add: init_db_def insert_sample_recipes_if_empty_def Let_def insert_recipe_tables)

lemma add_grocery_item_pantry: "pantry_items (add_grocery_item d name) = pantry_items d"
  by (simp add: add_grocery_item_def)

lemma add_grocery_items_pantry: "pantry_items (foldl add_grocery_item d ms) = pantry_items d"
  by (induction ms arbitrary: d) (simp_all add: add_grocery_item_pantry)

lemma add_grocery_item_names:
  "map grocery_name (grocery_items (add_grocery_item d name)) =
     map grocery_name (grocery_items d) @ (if name = [] then [] else [lower (strip name)])"
  by (simp add: add_grocery_item_def)

lemma add_grocery_items_names:
  "map grocery_name (grocery_items (foldl add_grocery_item d ms)) =
     map grocery_name (grocery_items d) @ map (\<lambda>m. lower (strip m)) (filter (\<lambda>m. m \<noteq> []) ms)"
  by (induction ms arbitrary: d) (simp_all add: add_grocery_item_names)

lemma grocery_inv_names:
  "grocery_inv d =
     list_all (list_all (\<lambda>c. lower_char c = c \<and> (\<not> isupper_char c \<or> c = Upsilon_Hook)))
       (map grocery_name (grocery_items d))"
  by (simp add: grocery_inv_def list_all_iff)

lemma add_grocery_items_inv: "grocery_inv d \<Longrightarrow> grocery_inv (foldl add_grocery_item d ms)"
proof -
  assume inv: "grocery_inv d"
  have "list_all (\<lambda>c. lower_char c = c \<and> (\<not> isupper_char c \<or> c = Upsilon_Hook)) n"
    if "n \<in> set (map (\<lambda>m. lower (strip m)) (filter (\<lambda>m. m \<noteq> []) ms))" for n
    using that lower_fixed by auto
  with inv show ?thesis
    unfolding grocery_inv_names add_grocery_items_names list_all_iff by auto
qed

lemma add_grocery_item_inv: "grocery_inv d \<Longrightarrow> grocery_inv (add_grocery_item d name)"
  using add_grocery_items_inv [of d "[name]"] by simp

lemma add_missing_to_grocery_result:
  "add_missing_to_grocery d rid = Inr r \<Longrightarrow>
   \<exists>ms. r = (foldl add_grocery_item d ms, ms)"
  by (auto simp: add_missing_to_grocery_def split: sum.splits)

lemma keep_on_error_cases:
  "P d \<Longrightarrow> (\<And>d'. P d \<Longrightarrow> r = Inr d' \<Longrightarrow> P d') \<Longrightarrow> P (keep_on_error d r)"
  by (cases r) (simp_all add: keep_on_error_def)

lemma add_recipe_tables:
  assumes "map_sum id fst (add_recipe d t i s ct df ip) = Inr d'"
  shows "pantry_items d' = pantry_items d" and "grocery_items d' = grocery_items d"
  using assms by (auto simp: add_recipe_def insert_recipe_tables split: if_splits)

lemma set_favorite_tables:
  assumes "set_favorite d rid fav = Inr d'"
  shows "pantry_items d' = pantry_items d" and "grocery_items d' = grocery_items d"
  using assms by (auto simp: set_favorite_def split: if_splits)

lemma set_recipe_notes_tables:
  assumes "set_recipe_notes d rid notes_text = Inr d'"
  shows "pantry_items d' = pantry_items d" and "grocery_items d' = grocery_items d"
  using assms by (auto simp: set_recipe_notes_def split: if_splits)

lemma remove_grocery_item_tables:
  assumes "remove_grocery_item d item_id = Inr d'"
  shows "pantry_items d' = pantry_items d"
    and "set (grocery_items d') \<subseteq> set (grocery_items d)"
  using assms by (auto simp: remove_grocery_item_def split: if_splits)

lemma set_grocery_checked_tables:
  assumes "set_grocery_checked d item_id checked = Inr d'"
  shows "pantry_items d' = pantry_items d"
    and "map grocery_name (grocery_items d') = map grocery_name (grocery_items d)"
  using assms by (auto simp: set_grocery_checked_def split: if_splits)

lemma add_missing_to_grocery_tables:
  assumes "map_sum id fst (add_missing_to_grocery d rid) = Inr d'"
  shows "\<exists>ms. d' = foldl add_grocery_item d ms"
proof (cases "add_missing_to_grocery d rid")
  case (Inl e)
  with assms show ?thesis by simp
next
  case (Inr r)
  with assms have "d' = fst r" by simp
  with add_missing_to_grocery_result [OF Inr] show ?thesis by auto
qed

lemma exec_pantry_inv: "pantry_inv d \<Longrightarrow> pantry_inv (exec d x)"
proof (cases x)
  case (AddPantryItem name)
  assume "pantry_inv d"
  then show ?thesis
    using stored_name_fixed [of name]
    by (simp add: AddPantryItem pantry_inv_def add_pantry_item_def)
next
  case (AddRecipe t i s ct df ip)
  assume "pantry_inv d"
  then show ?thesis
    unfolding AddRecipe exec.simps
    by (rule keep_on_error_cases) (simp add: pantry_inv_def add_recipe_tables)
next
  case (SetFavorite rid fav)
  assume "pantry_inv d"
  then show ?thesis
    unfolding SetFavorite exec.simps
    by (rule keep_on_error_cases) (simp add: pantry_inv_def set_favorite_tables)
next
  case (RemoveGroceryItem item_id)
  assume "pantry_inv d"
  then show ?thesis
    unfolding RemoveGroceryItem exec.simps
    by (rule keep_on_error_cases) (simp add: pantry_inv_def remove_grocery_item_tables)
next
  case (SetGroceryChecked item_id checked)
  assume "pantry_inv d"
  then show ?thesis
    unfolding SetGroceryChecked exec.simps
    by (rule keep_on_error_cases) (simp add: pantry_inv_def set_grocery_checked_tables)
next
  case (SetRecipeNotes rid notes_text)
  assume "pantry_inv d"
  then show ?thesis
    unfolding SetRecipeNotes exec.simps
    by (rule keep_on_error_cases) (simp add: pantry_inv_def set_recipe_notes_tables)
next
  case (AddMissingToGrocery rid)
  assume "pantry_inv d"
  then show ?thesis
    unfolding AddMissingToGrocery exec.simps
    by (rule keep_on_error_cases)
      (auto simp: pantry_inv_def add_grocery_items_pantry dest!: add_missing_to_grocery_tables)
qed (simp_all add: pantry_inv_def init_db_tables remove_pantry_item_def add_grocery_item_pantry
      clear_grocery_def list_all_iff)

lemma exec_grocery_inv: "grocery_inv d \<Longrightarrow> grocery_inv (exec d x)"
proof (cases x)
  case (AddGroceryItem name)
  assume "grocery_inv d"
  then show ?thesis by (simp add: AddGroceryItem add_grocery_item_inv)
next
  case (AddRecipe t i s ct df ip)
  assume "grocery_inv d"
  then show ?thesis
    unfolding AddRecipe exec.simps
    by (rule keep_on_error_cases) (simp add: grocery_inv_def add_recipe_tables)
next
  case (SetFavorite rid fav)
  assume "grocery_inv d"
  then show ?thesis
    unfolding SetFavorite exec.simps
    by (rule keep_on_error_cases) (simp add: grocery_inv_def set_favorite_tables)
next
  case (RemoveGroceryItem item_id)
  assume inv: "grocery_inv d"
  show ?thesis
    unfolding RemoveGroceryItem exec.simps
  proof (rule keep_on_error_cases)
    show "grocery_inv d" by (rule inv)
    fix d' assume "remove_grocery_item d item_id = Inr d'"
    from remove_grocery_item_tables(2) [OF this] inv show "grocery_inv d'"
      by (auto simp: grocery_inv_def list_all_iff)
  qed
next
  case (SetGroceryChecked item_id checked)
  assume "grocery_inv d"
  then show ?thesis
    unfolding SetGroceryChecked exec.simps
    by (rule keep_on_error_cases) (simp add: grocery_inv_names set_grocery_checked_tables)
next
  case (SetRecipeNotes rid notes_text)
  assume "grocery_inv d"
  then show ?thesis
    unfolding SetRecipeNotes exec.simps
    by (rule keep_on_error_cases) (simp add: grocery_inv_def set_recipe_notes_tables)
next
  case (AddMissingToGrocery rid)
  assume "grocery_inv d"
  then show ?thesis
    unfolding AddMissingToGrocery exec.simps
    by (rule keep_on_error_cases)
      (auto simp: add_grocery_items_inv dest!: add_missing_to_grocery_tables)
qed (auto simp: grocery_inv_def init_db_tables remove_pantry_item_def add_pantry_item_def
      clear_grocery_def list_all_iff)

lemma foldl_exec_pantry_inv: "pantry_inv d \<Longrightarrow> pantry_inv (foldl exec d ops)"
  by (induction ops arbitrary: d) (simp_all add: exec_pantry_inv)

lemma foldl_exec_grocery_inv: "grocery_inv d \<Longrightarrow> grocery_inv (foldl exec d ops)"
  by (induction ops arbitrary: d) (simp_all add: exec_grocery_inv)

lemma run_pantry_inv: "pantry_inv (run ops)"
  unfolding run_def
  by (rule foldl_exec_pantry_inv) (simp add: pantry_inv_def init_db_tables empty_db_def)

lemma run_grocery_inv: "grocery_inv (run ops)"
  unfolding run_def
  by (rule foldl_exec_grocery_inv) (simp add: grocery_inv_def init_db_tables empty_db_def)

lemma add_pantry_item_inv: "pantry_inv d \<Longrightarrow> pantry_inv (add_pantry_item d name)"
  using exec_pantry_inv [of d "AddPantryItem name"] by simp

lemma distinct_count_one:
  "distinct xs \<Longrightarrow> x \<in> set xs \<Longrightarrow> length (filter (\<lambda>n. n = x) xs) = 1"
proof (induction xs)
  case Nil
  then show ?case by simp
next
  case (Cons y ys)
  show ?case
  proof (cases "y = x")
    case True
    with Cons.prems have "filter (\<lambda>n. n = x) ys = []" by (auto simp: filter_empty_conv)
    with True show ?thesis by simp
  next
    case False
    with Cons show ?thesis by simp
  qed
qed

lemma add_pantry_item_set:
  "name \<noteq> [] \<Longrightarrow>
   set (pantry_items (add_pantry_item d name)) = insert (lower (strip name)) (set (pantry_items d))"
  by (auto simp: add_pantry_item_def)

lemma add_pantry_item_twice:
  "a \<noteq> [] \<Longrightarrow> b \<noteq> [] \<Longrightarrow> lower (strip a) = lower (strip b) \<Longrightarrow>
   add_pantry_item (add_pantry_item d a) b = add_pantry_item d a"
  using add_pantry_item_set [of a d] by (simp add: add_pantry_item_def [of _ b])

subsection \<open>The matcher on the database\<close>

lemma missing_spec_nonempty: "[] \<notin> set (missing_spec ls pantry)"
  by (simp add: set_missing_spec)

lemma compute_missing_ingredients_eq:
  "compute_missing_ingredients d rid =
     (if sqlite_int rid
      then Inr (case find (\<lambda>r. recipe_id r = rid) (recipes d) of
                  None \<Rightarrow> []
                | Some r \<Rightarrow> missing_spec (splitlines (ingredients_text r)) (set (list_pantry d)))
      else Inl OverflowError)"
  by (simp add: compute_missing_ingredients_def get_recipe_def missing_ingredients_eq
      split: option.splits)

lemma compute_missing_ingredients_nonempty:
  "sqlite_int rid \<Longrightarrow> \<exists>out. compute_missing_ingredients d rid = Inr out \<and> [] \<notin> set out"
  by (simp add: compute_missing_ingredients_eq missing_spec_nonempty split: option.splits)

lemma get_recipe_unknown:
  "sqlite_int rid \<Longrightarrow> rid \<notin> recipe_id ` set (recipes d) \<Longrightarrow> get_recipe d rid = Inr None"
  by (auto simp: get_recipe_def find_None_iff)

section \<open>The claims\<close>

text \<open>
  Claim C1. For every list of ingredient lines and every pantry set,
  \<open>missing_ingredients\<close> raises nothing and returns what the specification describes:
  it goes through exactly the lines that are not blank, in order, takes for each the
  last token of its normal form as key, and keeps a key exactly when it is not empty and
  not in the pantry (each key once, see C3). For the lines \<open>1 cup flour\<close>, \<open>2 eggs\<close>,
  \<open>1/2 cup milk\<close> and the pantry of \<open>flour\<close> and \<open>eggs\<close> the result is \<open>milk\<close>.
\<close>

theorem missing_ingredients_meets_spec:
  "missing_ingredients lines pantry = Inr (missing_spec lines pantry) \<and>
   missing_ingredients [(str ''1 cup flour''), (str ''2 eggs''), (str ''1/2 cup milk'')] {(str ''flour''), (str ''eggs'')}
     = Inr [(str ''milk'')]"
proof
  show "missing_ingredients lines pantry = Inr (missing_spec lines pantry)"
    by (rule missing_ingredients_eq)
  show "missing_ingredients [(str ''1 cup flour''), (str ''2 eggs''), (str ''1/2 cup milk'')] {(str ''flour''), (str ''eggs'')}
     = Inr [(str ''milk'')]"
    by code_simp
qed

text \<open>
  Claim C2. For every input string, \<open>_normalize_ingredient\<close> equals the pipeline of the
  specification (which has no trimming step: trimming first changes nothing), and the
  line \<open>2 cups whole Milk.\<close> becomes \<open>cups whole milk\<close>.
\<close>

theorem normalize_ingredient_meets_spec:
  "normalize_ingredient line = normalize_spec line \<and>
   normalize_ingredient (str ''2 cups whole Milk.'') = (str ''cups whole milk'')"
proof
  show "normalize_ingredient line = normalize_spec line"
    by (rule normalize_ingredient_pipeline)
  show "normalize_ingredient (str ''2 cups whole Milk.'') = (str ''cups whole milk'')"
    by code_simp
qed

text \<open>
  Claim C3. The output of \<open>missing_ingredients\<close> has no key twice, every key of it was
  produced by some line, and the keys stand in the order of the first lines that produced
  them. The lines \<open>3 tbsp sugar\<close>, \<open>1 tbsp sugar\<close> against the empty pantry give
  exactly \<open>sugar\<close>.
\<close>

theorem missing_ingredients_distinct_in_first_line_order:
  "(\<exists>out. missing_ingredients lines pantry = Inr out \<and> distinct out \<and>
          sorted_wrt (\<lambda>a b. first_line lines a < first_line lines b) out \<and>
          list_all (\<lambda>key. first_line lines key < length lines) out) \<and>
   missing_ingredients [(str ''3 tbsp sugar''), (str ''1 tbsp sugar'')] {} = Inr [(str ''sugar'')]"
proof
  have "distinct (missing_spec lines pantry)"
    by (simp add: missing_spec_def distinct_first_occurrences)
  moreover have "list_all (\<lambda>key. first_line lines key < length lines) (missing_spec lines pantry)"
    by (simp add: list_all_iff first_line_less)
  ultimately show "\<exists>out. missing_ingredients lines pantry = Inr out \<and> distinct out \<and>
          sorted_wrt (\<lambda>a b. first_line lines a < first_line lines b) out \<and>
          list_all (\<lambda>key. first_line lines key < length lines) out"
    by (simp add: missing_ingredients_eq missing_spec_sorted)
  show "missing_ingredients [(str ''3 tbsp sugar''), (str ''1 tbsp sugar'')] {} = Inr [(str ''sugar'')]"
    by code_simp
qed

text \<open>
  Claim C4, as the specification states it, fails in its second half: a pantry entry
  stored by \<open>add_pantry_item\<close> need not be a fixed point of the normalizer. Adding
  \<open>Salt.\<close> stores \<open>salt.\<close>, which the normalizer turns into \<open>salt\<close>.
\<close>

theorem pantry_entry_not_normalized:
  "pantry_items (run [AddPantryItem (str ''Salt.'')]) = [(str ''salt.'')] \<and>
   normalize_ingredient (str ''salt.'') = (str ''salt'') \<and>
   normalize_ingredient (str ''salt.'') \<noteq> (str ''salt.'')"
  by code_simp

text \<open>
  Claim C4, amended. Membership in the pantry is exact equality of the key of a line
  with a pantry entry, and nothing is normalized again: a key is in the output exactly
  when it is not empty, some line that is not blank has it, and every entry differs
  from it. Every pantry entry, after any run of calls, is trimmed and lower-cased (a
  fixed point of \<open>strip\<close> and of \<open>lower\<close>), and adding a name that is not empty makes
  the trimmed, lower-cased name an entry.
\<close>

theorem pantry_membership_exact_entries_trimmed_lowered:
  "(\<exists>out. missing_ingredients lines (set entries) = Inr out \<and>
      (\<forall>key. key \<in> set out \<longleftrightarrow>
         key \<noteq> [] \<and> list_ex (\<lambda>l. \<not> blank l \<and> line_key l = key) lines \<and>
         list_all (\<lambda>e. e \<noteq> key) entries)) \<and>
   list_all (\<lambda>e. strip e = e \<and> lower e = e) (pantry_items (run ops)) \<and>
   (name \<noteq> [] \<longrightarrow>
      set (pantry_items (add_pantry_item d name)) = insert (lower (strip name)) (set (pantry_items d)))"
proof (intro conjI)
  show "\<exists>out. missing_ingredients lines (set entries) = Inr out \<and>
      (\<forall>key. key \<in> set out \<longleftrightarrow>
         key \<noteq> [] \<and> list_ex (\<lambda>l. \<not> blank l \<and> line_key l = key) lines \<and>
         list_all (\<lambda>e. e \<noteq> key) entries)"
    by (auto simp: missing_ingredients_eq set_missing_spec list_ex_iff list_all_iff)
  show "list_all (\<lambda>e. strip e = e \<and> lower e = e) (pantry_items (run ops))"
    using run_pantry_inv [of ops] by (simp add: pantry_inv_def)
  show "name \<noteq> [] \<longrightarrow>
      set (pantry_items (add_pantry_item d name)) = insert (lower (strip name)) (set (pantry_items d))"
    by (simp add: add_pantry_item_set)
qed

theorem pantry_membership_exact_entries_trimmed_lowered_witness:
  "(str ''Salt.'') \<noteq> [] \<and>
   set (pantry_items (add_pantry_item (run []) (str ''Salt.'')))
     = insert (lower (strip (str ''Salt.''))) (set (pantry_items (run []))) \<and>
   list_all (\<lambda>e. strip e = e \<and> lower e = e)
     (pantry_items (run [AddPantryItem (str ''Salt.''), AddPantryItem (str '' Olive Oil '')]))"
proof -
  have h: "(str ''Salt.'') \<noteq> []" by simp
  with pantry_membership_exact_entries_trimmed_lowered
         [of "[]" "[]" "[AddPantryItem (str ''Salt.''), AddPantryItem (str '' Olive Oil '')]" "(str ''Salt.'')" "run []"]
  show ?thesis by blast
qed

text \<open>
  Claim C5. The matcher raises nothing: the normal form of the empty string is the
  empty string, the key of a normal form is always there (the \<open>[-1]\<close> never fails), and
  \<open>missing_ingredients\<close> returns a list on every list of lines and every pantry, in
  which the empty key never stands.
\<close>

theorem matcher_total_skips_empty_keys:
  "normalize_ingredient [] = [] \<and>
   (\<exists>key. ingredient_key (normalize_ingredient line) = Inr key) \<and>
   (\<exists>out. missing_ingredients lines pantry = Inr out \<and> [] \<notin> set out)"
proof (intro conjI)
  show "normalize_ingredient [] = []" by code_simp
  show "\<exists>key. ingredient_key (normalize_ingredient line) = Inr key"
    by (simp add: ingredient_key_normalized)
  show "\<exists>out. missing_ingredients lines pantry = Inr out \<and> [] \<notin> set out"
    by (simp add: missing_ingredients_eq missing_spec_nonempty)
qed

text \<open>
  Claim C6. The normalizer is idempotent: normalizing a normal form returns it unchanged.
\<close>

theorem normalize_ingredient_idempotent:
  "normalize_ingredient (normalize_ingredient s) = normalize_ingredient s"
  by (rule normalize_ingredient_idem)

text \<open>
  Claim C7. For the single line \<open>1/4 tsp red pepper flakes\<close> and the pantry of
  \<open>pepper\<close> the result is exactly \<open>flakes\<close>: the token \<open>1/4\<close> is not all digits and
  stays in the normal form, the key is the last token \<open>flakes\<close>, and it is not the
  entry \<open>pepper\<close>.
\<close>

theorem red_pepper_flakes_not_matched:
  "missing_ingredients [(str ''1/4 tsp red pepper flakes'')] {(str ''pepper'')} = Inr [(str ''flakes'')] \<and>
   normalize_ingredient (str ''1/4 tsp red pepper flakes'') = (str ''1/4 tsp red pepper flakes'') \<and>
   ingredient_key (str ''1/4 tsp red pepper flakes'') = Inr (str ''flakes'')"
  by code_simp

text \<open>
  Claim C8. After any run of calls (the calls that add to and remove from the pantry
  among them) no two pantry entries are equal after trimming and lower-casing; and when
  two names that are not empty agree after trimming and lower-casing, adding the second
  changes nothing and the pantry holds one such entry.
\<close>

theorem pantry_entries_unique:
  "distinct (map (\<lambda>n. lower (strip n)) (pantry_items (run ops))) \<and>
   (a \<noteq> [] \<and> b \<noteq> [] \<and> lower (strip a) = lower (strip b) \<longrightarrow>
      add_pantry_item (add_pantry_item (run ops) a) b = add_pantry_item (run ops) a \<and>
      length (filter (\<lambda>n. lower (strip n) = lower (strip a))
                (pantry_items (add_pantry_item (add_pantry_item (run ops) a) b))) = 1)"
proof (intro conjI impI)
  have canon: "map (\<lambda>n. lower (strip n)) (pantry_items d) = pantry_items d"
    and canon_filter: "filter (\<lambda>n. lower (strip n) = x) (pantry_items d)
                         = filter (\<lambda>n. n = x) (pantry_items d)"
    if "pantry_inv d" for d x
    using that by (auto simp: pantry_inv_def list_all_iff intro: map_idI filter_cong)
  show "distinct (map (\<lambda>n. lower (strip n)) (pantry_items (run ops)))"
    using run_pantry_inv [of ops] by (simp add: canon) (simp add: pantry_inv_def)
  assume h: "a \<noteq> [] \<and> b \<noteq> [] \<and> lower (strip a) = lower (strip b)"
  then show twice: "add_pantry_item (add_pantry_item (run ops) a) b = add_pantry_item (run ops) a"
    by (simp add: add_pantry_item_twice)
  let ?d = "add_pantry_item (run ops) a"
  have inv: "pantry_inv ?d" by (rule add_pantry_item_inv [OF run_pantry_inv])
  have "lower (strip a) \<in> set (pantry_items ?d)"
    using h by (simp add: add_pantry_item_set)
  with inv have "length (filter (\<lambda>n. n = lower (strip a)) (pantry_items ?d)) = 1"
    by (simp add: pantry_inv_def distinct_count_one)
  then show "length (filter (\<lambda>n. lower (strip n) = lower (strip a))
                (pantry_items (add_pantry_item (add_pantry_item (run ops) a) b))) = 1"
    by (simp add: twice canon_filter [OF inv])
qed

theorem pantry_entries_unique_witness:
  "((str ''Milk '') \<noteq> [] \<and> (str '' milk'') \<noteq> [] \<and> lower (strip (str ''Milk '')) = lower (strip (str '' milk''))) \<and>
   distinct (map (\<lambda>n. lower (strip n)) (pantry_items (run [AddPantryItem (str ''Salt'')]))) \<and>
   add_pantry_item (add_pantry_item (run [AddPantryItem (str ''Salt'')]) (str ''Milk '')) (str '' milk'')
     = add_pantry_item (run [AddPantryItem (str ''Salt'')]) (str ''Milk '') \<and>
   length (filter (\<lambda>n. lower (strip n) = lower (strip (str ''Milk '')))
     (pantry_items
        (add_pantry_item (add_pantry_item (run [AddPantryItem (str ''Salt'')]) (str ''Milk '')) (str '' milk'')))) = 1"
proof -
  have h: "(str ''Milk '') \<noteq> [] \<and> (str '' milk'') \<noteq> [] \<and> lower (strip (str ''Milk '')) = lower (strip (str '' milk''))"
    by code_simp
  with pantry_entries_unique [of "[AddPantryItem (str ''Salt'')]" "(str ''Milk '')" "(str '' milk'')"]
  show ?thesis by blast
qed

text \<open>
  Claim C9, as the specification states it, fails in its last clause: a stored grocery
  name can contain an upper-case character. \<open>add_grocery_item\<close> stores the name
  lower-cased with \<open>str.lower()\<close>, and U+03D2 is an upper-case character that
  \<open>str.lower()\<close> leaves as it is.
\<close>

theorem grocery_name_with_capital_stored:
  "map grocery_name (grocery_items (run [AddGroceryItem [Upsilon_Hook]])) = [[Upsilon_Hook]] \<and>
   lower (strip [Upsilon_Hook]) = [Upsilon_Hook] \<and>
   isupper_char Upsilon_Hook"
  by code_simp

text \<open>
  Claim C9, amended. Grocery names are stored lower-cased. \<open>add_grocery_item\<close> with a
  name that is not empty appends one item whose name is the input, trimmed and
  lower-cased; \<open>add_missing_to_grocery\<close>, for a recipe id that fits 64 bits, returns
  and appends every key it returns, trimmed and lower-cased; and after any run of calls
  lower-casing changes no character of a stored grocery name, so that an upper-case
  character in a stored name is one that has no lower-case form (U+03D2 in this
  alphabet).
\<close>

theorem grocery_names_lowercased:
  "(name \<noteq> [] \<longrightarrow>
      map grocery_name (grocery_items (add_grocery_item d name))
        = map grocery_name (grocery_items d) @ [lower (strip name)]) \<and>
   (sqlite_int rid \<longrightarrow>
      (\<exists>d' missing. add_missing_to_grocery d rid = Inr (d', missing) \<and>
         map grocery_name (grocery_items d')
           = map grocery_name (grocery_items d) @ map (\<lambda>m. lower (strip m)) missing)) \<and>
   list_all
     (\<lambda>g. list_all (\<lambda>c. lower_char c = c \<and> (\<not> isupper_char c \<or> c = Upsilon_Hook))
            (grocery_name g))
     (grocery_items (run ops))"
proof (intro conjI impI)
  show "map grocery_name (grocery_items (add_grocery_item d name))
        = map grocery_name (grocery_items d) @ [lower (strip name)]" if "name \<noteq> []"
    using that by (simp add: add_grocery_item_names)
  show "\<exists>d' missing. add_missing_to_grocery d rid = Inr (d', missing) \<and>
      map grocery_name (grocery_items d')
        = map grocery_name (grocery_items d) @ map (\<lambda>m. lower (strip m)) missing"
    if r: "sqlite_int rid"
  proof -
    obtain out where out: "compute_missing_ingredients d rid = Inr out" and ne: "[] \<notin> set out"
      using compute_missing_ingredients_nonempty [OF r] by blast
    from ne have "filter (\<lambda>m. m \<noteq> []) out = out" by (auto intro: filter_True)
    with out show ?thesis
      by (simp add: add_missing_to_grocery_def add_grocery_items_names)
  qed
  show "list_all
     (\<lambda>g. list_all (\<lambda>c. lower_char c = c \<and> (\<not> isupper_char c \<or> c = Upsilon_Hook))
            (grocery_name g))
     (grocery_items (run ops))"
    using run_grocery_inv [of ops] by (simp add: grocery_inv_def)
qed

theorem grocery_names_lowercased_witness:
  "(str ''Olive Oil '' \<noteq> [] \<and> sqlite_int 1) \<and>
   map grocery_name (grocery_items (add_grocery_item (run []) (str ''Olive Oil '')))
     = map grocery_name (grocery_items (run [])) @ [lower (strip (str ''Olive Oil ''))] \<and>
   (\<exists>d' missing. add_missing_to_grocery (run []) 1 = Inr (d', missing) \<and>
      map grocery_name (grocery_items d')
        = map grocery_name (grocery_items (run [])) @ map (\<lambda>m. lower (strip m)) missing) \<and>
   list_all
     (\<lambda>g. list_all (\<lambda>c. lower_char c = c \<and> (\<not> isupper_char c \<or> c = Upsilon_Hook))
            (grocery_name g))
     (grocery_items (run [AddGroceryItem (str ''Olive Oil ''), AddMissingToGrocery 1]))"
proof -
  have h: "str ''Olive Oil '' \<noteq> [] \<and> sqlite_int 1" by (simp add: sqlite_int_def)
  with grocery_names_lowercased
         [of "str ''Olive Oil ''" "run []" 1
             "[AddGroceryItem (str ''Olive Oil ''), AddMissingToGrocery 1]"]
  show ?thesis by blast
qed

text \<open>
  Claim C10, as it is stated, fails for a recipe id outside SQLite's 64-bit integers:
  such an id identifies no stored recipe, and the \<open>execute\<close> of \<open>get_recipe\<close> raises
  \<open>OverflowError\<close> for it, so neither call returns the empty list.
\<close>

theorem huge_recipe_id_raises:
  "9223372036854775808 \<notin> recipe_id ` set (recipes (run [])) \<and>
   compute_missing_ingredients (run []) 9223372036854775808 = Inl OverflowError \<and>
   add_missing_to_grocery (run []) 9223372036854775808 = Inl OverflowError"
proof (intro conjI)
  show "9223372036854775808 \<notin> recipe_id ` set (recipes (run []))" by code_simp
  show c: "compute_missing_ingredients (run []) 9223372036854775808 = Inl OverflowError"
    by (simp add: compute_missing_ingredients_def get_recipe_def sqlite_int_def)
  show "add_missing_to_grocery (run []) 9223372036854775808 = Inl OverflowError"
    by (simp add: add_missing_to_grocery_def c)
qed

text \<open>
  Claim C10, amended. For a recipe id that fits SQLite's 64-bit integers and that no
  stored recipe has, \<open>compute_missing_ingredients\<close> returns the empty list, and
  \<open>add_missing_to_grocery\<close> returns the empty list and leaves the database, the
  grocery list with it, as it was.
\<close>

theorem unknown_recipe_nothing_missing:
  "sqlite_int rid \<Longrightarrow> rid \<notin> recipe_id ` set (recipes d) \<Longrightarrow>
   compute_missing_ingredients d rid = Inr [] \<and> add_missing_to_grocery d rid = Inr (d, [])"
  by (simp add: compute_missing_ingredients_def add_missing_to_grocery_def get_recipe_unknown)

theorem unknown_recipe_nothing_missing_witness:
  "(sqlite_int 42 \<and> 42 \<notin> recipe_id ` set (recipes (run []))) \<and>
   compute_missing_ingredients (run []) 42 = Inr [] \<and>
   add_missing_to_grocery (run []) 42 = Inr (run [], [])"
proof -
  have h1: "sqlite_int 42" by (simp add: sqlite_int_def)
  have h2: "42 \<notin> recipe_id ` set (recipes (run []))" by code_simp
  from unknown_recipe_nothing_missing [OF h1 h2] h1 h2 show ?thesis by blast
qed

end
